theory Spec2Isabelle
  imports
    Main
    "HOL-Library.Sublist"
    "HOL-Library.AList"
    "HOL-Library.Char_ord"
    "HOL-Library.List_Lexorder"
    "HOL-Library.Product_Lexorder"
begin

section \<open>The tagging tools of \<^verbatim>\<open>src/tagging/tools.py\<close>\<close>

text \<open>
  The four tools are pure functions over Python dictionaries, lists and strings.
  A Python \<^verbatim>\<open>dict\<close> keeps its insertion order and the tools iterate over it, so a
  dictionary is an association list whose keys are distinct; \<^verbatim>\<open>d[k]\<close> and
  \<^verbatim>\<open>k in d\<close> are \<open>map_of\<close>, \<^verbatim>\<open>d[k] = v\<close> is \<open>dict_set\<close>, \<^verbatim>\<open>d.items()\<close> is the
  list itself. A Python \<^verbatim>\<open>str\<close> is the \<open>string\<close> of the bytes of its UTF-8 encoding:
  containment and ordering of code point sequences are containment and ordering of
  these byte lists, so \<^verbatim>\<open>a in b\<close> on strings is \<open>sublist a b\<close> and \<^verbatim>\<open>sorted\<close> is
  \<open>sort\<close>.
  The tools receive their arguments as decoded JSON, so a value is one of the JSON
  shapes below; a number is carried as an integer, since the tools store numbers and
  never compute with them. None of the statements of the four tools can raise on such
  inputs, hence the functions below return plain values.
\<close>

subsection \<open>Values\<close>

datatype pyval =
    PNone
  | PBool bool
  | PInt int
  | PStr string
  | PList "pyval list"
  | PDict "(string \<times> pyval) list"

type_synonym pydict = "(string \<times> pyval) list"

text \<open>\<^verbatim>\<open>isinstance(v, (list, dict))\<close> and \<^verbatim>\<open>isinstance(v, dict)\<close>.\<close>

fun is_list_or_dict :: "pyval \<Rightarrow> bool" where
  "is_list_or_dict (PList _) = True"
| "is_list_or_dict (PDict _) = True"
| "is_list_or_dict _ = False"

text \<open>Python truthiness, as used by \<^verbatim>\<open>not field_data["tags"]\<close>.\<close>

fun truthy :: "pyval \<Rightarrow> bool" where
  "truthy PNone = False"
| "truthy (PBool b) = b"
| "truthy (PInt i) = (i \<noteq> 0)"
| "truthy (PStr s) = (s \<noteq> [])"
| "truthy (PList xs) = (xs \<noteq> [])"
| "truthy (PDict d) = (d \<noteq> [])"

text \<open>\<^verbatim>\<open>d[k] = v\<close>: an existing key keeps its position, a new key goes last.\<close>

definition dict_set :: "('k \<times> 'v) list \<Rightarrow> 'k \<Rightarrow> 'v \<Rightarrow> ('k \<times> 'v) list" where
  "dict_set d k v = AList.update k v d"

subsection \<open>Strings\<close>

text \<open>
  \<^verbatim>\<open>str.lower()\<close> follows the Unicode case tables of the interpreter, which are not
  part of the sources: the functions below that call it take it as their first
  argument \<open>str_lower\<close>. On ASCII text it is \<open>ascii_lower\<close>: the letters A to Z are
  moved to a to z and every other character is kept.
\<close>

definition char_lower :: "char \<Rightarrow> char" where
  "char_lower c =
     (if CHR ''A'' \<le> c \<and> c \<le> CHR ''Z'' then char_of (of_char c + (32::nat)) else c)"

definition ascii_lower :: "string \<Rightarrow> string" where
  "ascii_lower s = map char_lower s"

text \<open>\<^verbatim>\<open>sep.join(parts)\<close>.\<close>

fun join :: "string \<Rightarrow> string list \<Rightarrow> string" where
  "join sep [] = []"
| "join sep [x] = x"
| "join sep (x # y # ys) = x @ sep @ join sep (y # ys)"

subsection \<open>Dates\<close>

text \<open>
  A \<^verbatim>\<open>datetime.date\<close> has a year in 1..9999, a month in 1..12 and a day within the
  month; the constructor refuses anything else.
\<close>

record date =
  year :: nat
  month :: nat
  day :: nat

definition is_leap :: "nat \<Rightarrow> bool" where
  "is_leap y = (y mod 4 = 0 \<and> (y mod 100 \<noteq> 0 \<or> y mod 400 = 0))"

definition days_in_month :: "nat \<Rightarrow> nat \<Rightarrow> nat" where
  "days_in_month y m =
     (if m = 2 then (if is_leap y then 29 else 28)
      else if m = 4 \<or> m = 6 \<or> m = 9 \<or> m = 11 then 30 else 31)"

definition valid_date :: "date \<Rightarrow> bool" where
  "valid_date d =
     (1 \<le> year d \<and> year d \<le> 9999 \<and> 1 \<le> month d \<and> month d \<le> 12
      \<and> 1 \<le> day d \<and> day d \<le> days_in_month (year d) (month d))"

text \<open>
  The decimal numeral of a number, and the numeral filled with zeros on the left up
  to a width, as the formats \<^verbatim>\<open>%d\<close> and \<^verbatim>\<open>%02d\<close> write them.
\<close>

definition digit :: "nat \<Rightarrow> char" where
  "digit n = ''0123456789'' ! (n mod 10)"

fun dec :: "nat \<Rightarrow> string" where
  "dec n = (if n < 10 then [digit n] else dec (n div 10) @ [digit (n mod 10)])"

declare dec.simps [simp del]

definition zero_pad :: "nat \<Rightarrow> nat \<Rightarrow> string" where
  "zero_pad w n = replicate (w - length (dec n)) (CHR ''0'') @ dec n"

text \<open>
  \<^verbatim>\<open>strftime('%Y%m%d')\<close> hands the format to the C library: \<^verbatim>\<open>%m\<close> and \<^verbatim>\<open>%d\<close> are
  written on two digits, \<^verbatim>\<open>%Y\<close> is the numeral of the year with no zeros added, so
  1 January 999 is written \<^verbatim>\<open>9990101\<close>. \<^verbatim>\<open>isoformat()\<close> is Python's own and fills the
  year to four digits.
\<close>

definition strftime_Ymd :: "date \<Rightarrow> string" where
  "strftime_Ymd d = dec (year d) @ zero_pad 2 (month d) @ zero_pad 2 (day d)"

definition isoformat :: "date \<Rightarrow> string" where
  "isoformat d = zero_pad 4 (year d) @ ''-'' @ zero_pad 2 (month d) @ ''-'' @ zero_pad 2 (day d)"

subsection \<open>The taxonomy registry\<close>

text \<open>
  Modelled from the spec: the module \<^verbatim>\<open>dependencies\<close> that declares
  \<^verbatim>\<open>XBRLTaxonomyDependencies\<close> and the tag model is not among the sources. A tag
  definition has an element name, a data type, a balance type (credit, debit or none),
  a period type and a description, and \<^verbatim>\<open>tag.dict()\<close> is the plain mapping of these
  five fields. The registry exposes \<^verbatim>\<open>field_tags\<close>, \<^verbatim>\<open>statement_tags\<close> and
  \<^verbatim>\<open>mandatory_fields\<close>; the tools reach it as \<^verbatim>\<open>context.deps\<close>.
\<close>

record tag =
  element_name :: string
  data_type :: string
  balance_type :: "string option"
  period_type :: string
  description :: string

definition tag_dict :: "tag \<Rightarrow> pyval" where
  "tag_dict t = PDict
     [(''element_name'', PStr (element_name t)),
      (''data_type'', PStr (data_type t)),
      (''balance_type'', (case balance_type t of None \<Rightarrow> PNone | Some b \<Rightarrow> PStr b)),
      (''period_type'', PStr (period_type t)),
      (''description'', PStr (description t))]"

record deps =
  field_tags :: "(string \<times> tag list) list"
  statement_tags :: "tag list"
  mandatory_fields :: "(string \<times> bool) list"

subsection \<open>\<^verbatim>\<open>apply_tags_to_element\<close>\<close>

text \<open>
  The fuzzy loop of lines 42 to 47: the registry is walked in its order and the loop
  breaks at the first key that contains the lowered element name or is contained in
  it. The result is the key and the tag list taken at the break, if any.
\<close>

fun fuzzy_search ::
  "(string \<Rightarrow> string) \<Rightarrow> string \<Rightarrow> (string \<times> tag list) list \<Rightarrow> (string \<times> tag list) option" where
  "fuzzy_search str_lower element [] = None"
| "fuzzy_search str_lower element ((field_name, ftags) # rest) =
     (if sublist (str_lower element) (str_lower field_name)
         \<or> sublist (str_lower field_name) (str_lower element)
      then Some (field_name, ftags)
      else fuzzy_search str_lower element rest)"

text \<open>Lines 32 to 47: the tags and the messages after the lookup.\<close>

definition find_tags :: "(string \<Rightarrow> string) \<Rightarrow> deps \<Rightarrow> string \<Rightarrow> tag list \<times> string list" where
  "find_tags str_lower d element =
     (case map_of (field_tags d) element of
        Some ts \<Rightarrow> (ts, [''Found exact tag match for '' @ element])
      | None \<Rightarrow>
          (case fuzzy_search str_lower element (field_tags d) of
             Some (field_name, ftags) \<Rightarrow>
               (ftags, [''No exact tag match found for '' @ element,
                        ''Using similar tag: '' @ field_name])
           | None \<Rightarrow> ([], [''No exact tag match found for '' @ element])))"

definition apply_tags_to_element ::
  "(string \<Rightarrow> string) \<Rightarrow> deps \<Rightarrow> string \<Rightarrow> pyval \<Rightarrow> string \<Rightarrow> bool \<Rightarrow> pydict" where
  "apply_tags_to_element str_lower d element val statement_type is_instant =
     (let (tags, messages) = find_tags str_lower d element;
          is_mandatory = (case map_of (mandatory_fields d) element of
                            Some m \<Rightarrow> m | None \<Rightarrow> False);
          messages = (if is_mandatory
                      then messages @ [''Note: '' @ element @ '' is a mandatory field'']
                      else messages)
      in [(''element_name'', PStr element),
          (''value'', val),
          (''tags'', PList (map tag_dict tags)),
          (''is_mandatory'', PBool is_mandatory),
          (''messages'', PList (map PStr messages))])"

subsection \<open>\<^verbatim>\<open>create_context_info\<close>\<close>

text \<open>Lines 93 to 104: the identifier. An absent or empty mapping adds nothing.\<close>

definition period_part :: "date \<Rightarrow> date option \<Rightarrow> string" where
  "period_part period_end period_start =
     (case period_start of
        None \<Rightarrow> ''i'' @ strftime_Ymd period_end
      | Some s \<Rightarrow> ''d'' @ strftime_Ymd s @ ''to'' @ strftime_Ymd period_end)"

definition dim_parts :: "(string \<times> string) list \<Rightarrow> string list" where
  "dim_parts dims = map (\<lambda>(dim_name, dim_value). dim_name @ ''-'' @ dim_value) (sort dims)"

definition context_id :: "date \<Rightarrow> date option \<Rightarrow> bool \<Rightarrow> (string \<times> string) list option \<Rightarrow> string" where
  "context_id period_end period_start is_consolidated dimensions =
     (let cid = ''ctx_'' @ period_part period_end period_start @ ''_''
                @ (if is_consolidated then ''c'' else ''s'')
      in case dimensions of
           None \<Rightarrow> cid
         | Some dims \<Rightarrow>
             if dims = [] then cid
             else if dim_parts dims = [] then cid
             else cid @ ''_'' @ join ''_'' (dim_parts dims))"

definition create_context_info ::
  "string \<Rightarrow> string \<Rightarrow> date \<Rightarrow> date option \<Rightarrow> bool \<Rightarrow> (string \<times> string) list option \<Rightarrow> pydict" where
  "create_context_info entity_name entity_identifier period_end period_start
       is_consolidated dimensions =
     (let period = [(''end_date'', PStr (isoformat period_end))];
          period = (case period_start of
                      None \<Rightarrow> period
                    | Some s \<Rightarrow> dict_set period ''start_date'' (PStr (isoformat s)));
          context_info =
            [(''id'', PStr (context_id period_end period_start is_consolidated dimensions)),
             (''entity'', PDict [(''name'', PStr entity_name),
                                 (''identifier'', PStr entity_identifier)]),
             (''period'', PDict period),
             (''is_consolidated'', PBool is_consolidated)]
      in case dimensions of
           None \<Rightarrow> context_info
         | Some dims \<Rightarrow>
             if dims = [] then context_info
             else dict_set context_info ''dimensions''
                    (PDict (map (\<lambda>(n, v). (n, PStr v)) dims)))"

subsection \<open>\<^verbatim>\<open>tag_statement_section\<close>\<close>

text \<open>Lines 147 to 149: the section-level tags are appended to the list in order.\<close>

fun collect_meta_tags ::
  "(string \<Rightarrow> string) \<Rightarrow> string \<Rightarrow> tag list \<Rightarrow> pyval list \<Rightarrow> pyval list" where
  "collect_meta_tags str_lower section_name [] meta = meta"
| "collect_meta_tags str_lower section_name (t # ts) meta =
     collect_meta_tags str_lower section_name ts
       (if sublist (str_lower section_name) (str_lower (element_name t))
        then meta @ [tag_dict t] else meta)"

text \<open>
  Lines 152 to 165: lists and dictionaries are skipped; any other entry is stored
  under its own name with the tags of the exact registry key, or with none.
\<close>

fun tag_elements :: "deps \<Rightarrow> pydict \<Rightarrow> pydict \<Rightarrow> pydict" where
  "tag_elements d [] tagged_section = tagged_section"
| "tag_elements d ((element, element_value) # rest) tagged_section =
     (if is_list_or_dict element_value then tag_elements d rest tagged_section
      else
        let tags = (case map_of (field_tags d) element of Some ts \<Rightarrow> ts | None \<Rightarrow> [])
        in tag_elements d rest
             (dict_set tagged_section element
                (PDict [(''value'', element_value), (''tags'', PList (map tag_dict tags))])))"

definition tag_statement_section ::
  "(string \<Rightarrow> string) \<Rightarrow> deps \<Rightarrow> string \<Rightarrow> pydict \<Rightarrow> pydict" where
  "tag_statement_section str_lower d section_name section_data =
     tag_elements d section_data
       [(''meta_tags'', PList (collect_meta_tags str_lower section_name (statement_tags d) []))]"

subsection \<open>\<^verbatim>\<open>validate_tagged_data\<close>\<close>

type_synonym issue = "(string \<times> string) list"

text \<open>Lines 192 to 195: the search through the sections, with its break.\<close>

fun field_found :: "string \<Rightarrow> pydict \<Rightarrow> bool" where
  "field_found field_name [] = False"
| "field_found field_name ((section_name, section_data) # rest) =
     (case section_data of
        PDict sd \<Rightarrow> (if map_of sd field_name \<noteq> None then True else field_found field_name rest)
      | _ \<Rightarrow> field_found field_name rest)"

definition missing_mandatory_issue :: "string \<Rightarrow> issue" where
  "missing_mandatory_issue field_name =
     [(''type'', ''missing_mandatory_field''),
      (''field'', field_name),
      (''message'', ''Mandatory field '' @ [CHR 0x27] @ field_name @ [CHR 0x27]
                    @ '' is missing from the tagged data'')]"

definition missing_tags_issue :: "string \<Rightarrow> string \<Rightarrow> issue" where
  "missing_tags_issue section_name field_name =
     [(''type'', ''missing_tags''),
      (''section'', section_name),
      (''field'', field_name),
      (''message'', ''No tags applied to field '' @ [CHR 0x27] @ field_name @ [CHR 0x27]
                    @ '' in section '' @ [CHR 0x27] @ section_name @ [CHR 0x27])]"

text \<open>Lines 187 to 202.\<close>

fun check_mandatory :: "(string \<times> bool) list \<Rightarrow> pydict \<Rightarrow> issue list \<Rightarrow> issue list" where
  "check_mandatory [] tagged_data issues = issues"
| "check_mandatory ((field_name, is_mandatory) # rest) tagged_data issues =
     check_mandatory rest tagged_data
       (if is_mandatory \<and> \<not> field_found field_name tagged_data
        then issues @ [missing_mandatory_issue field_name] else issues)"

text \<open>Line 208: the test on one field of a section.\<close>

fun untagged :: "pyval \<Rightarrow> bool" where
  "untagged (PDict field_data) =
     (case map_of field_data ''tags'' of None \<Rightarrow> False | Some ts \<Rightarrow> \<not> truthy ts)"
| "untagged _ = False"

text \<open>Lines 207 to 214, for one section.\<close>

fun check_fields :: "string \<Rightarrow> pydict \<Rightarrow> issue list \<Rightarrow> issue list" where
  "check_fields section_name [] issues = issues"
| "check_fields section_name ((field_name, field_data) # rest) issues =
     check_fields section_name rest
       (if untagged field_data then issues @ [missing_tags_issue section_name field_name]
        else issues)"

text \<open>Lines 205 to 214.\<close>

fun check_sections :: "pydict \<Rightarrow> issue list \<Rightarrow> issue list" where
  "check_sections [] issues = issues"
| "check_sections ((section_name, section_data) # rest) issues =
     check_sections rest
       (case section_data of
          PDict sd \<Rightarrow> check_fields section_name sd issues
        | _ \<Rightarrow> issues)"

definition validate_tagged_data :: "deps \<Rightarrow> pydict \<Rightarrow> issue list" where
  "validate_tagged_data d tagged_data =
     check_sections tagged_data (check_mandatory (mandatory_fields d) tagged_data [])"

section \<open>The specification's wording\<close>

text \<open>
  A date as YYYYMMDD: the year on four decimal digits, the month on two, the day on
  two. A digit is the character whose code is 48 plus its value.
\<close>

fun fixed_width :: "nat \<Rightarrow> nat \<Rightarrow> string" where
  "fixed_width 0 n = []"
| "fixed_width (Suc w) n = fixed_width w (n div 10) @ [char_of (48 + n mod 10)]"

definition yyyymmdd :: "date \<Rightarrow> string" where
  "yyyymmdd d = fixed_width 4 (year d) @ fixed_width 2 (month d) @ fixed_width 2 (day d)"

text \<open>
  The identifier as the specification words it: the period component, the scope
  component, the base identifier and, for a non-empty mapping, the dimension entries
  sorted by dimension name, rendered as name, hyphen, value and joined by underscores.
\<close>

definition spec_identifier ::
  "date \<Rightarrow> date option \<Rightarrow> bool \<Rightarrow> (string \<times> string) list option \<Rightarrow> string" where
  "spec_identifier period_end period_start consolidated dimensions =
     (let period_component =
            (case period_start of
               None \<Rightarrow> ''i'' @ yyyymmdd period_end
             | Some s \<Rightarrow> ''d'' @ yyyymmdd s @ ''to'' @ yyyymmdd period_end);
          scope_component = (if consolidated then ''c'' else ''s'');
          base = ''ctx_'' @ period_component @ ''_'' @ scope_component
      in case dimensions of
           None \<Rightarrow> base
         | Some dims \<Rightarrow>
             if dims = [] then base
             else base @ ''_'' @ join ''_'' (map (\<lambda>(n, v). n @ ''-'' @ v) (sort_key fst dims)))"

text \<open>
  The fuzzy test as the specification words it: substring containment in either
  direction between the field name and a candidate key, both lowered.
\<close>

definition fuzzy_match :: "(string \<Rightarrow> string) \<Rightarrow> string \<Rightarrow> string \<Rightarrow> bool" where
  "fuzzy_match str_lower field_name candidate =
     (sublist (str_lower field_name) (str_lower candidate)
      \<or> sublist (str_lower candidate) (str_lower field_name))"




text \<open>The tags entry of the element stored under a field name in a tagged section.\<close>

definition section_field_tags :: "pydict \<Rightarrow> string \<Rightarrow> pyval option" where
  "section_field_tags tagged_section field_name =
     (case map_of tagged_section field_name of
        Some (PDict element) \<Rightarrow> map_of element ''tags''
      | _ \<Rightarrow> None)"

text \<open>An issue of a given type that names a given field.\<close>

definition issue_type :: "issue \<Rightarrow> string option" where
  "issue_type i = map_of i ''type''"

definition names_field :: "string \<Rightarrow> string \<Rightarrow> issue \<Rightarrow> bool" where
  "names_field ty field_name i =
     (issue_type i = Some ty \<and> map_of i ''field'' = Some field_name)"

text \<open>
  A tagged document in the data model's sense: wherever a field of a section is an
  element with a tags entry, that entry is a list. The fields with an empty tag list
  are listed section by section.
\<close>

fun tags_is_list :: "pyval \<Rightarrow> bool" where
  "tags_is_list (PDict element) =
     (case map_of element ''tags'' of
        None \<Rightarrow> True
      | Some (PList _) \<Rightarrow> True
      | Some _ \<Rightarrow> False)"
| "tags_is_list _ = True"

definition tagged_document :: "pydict \<Rightarrow> bool" where
  "tagged_document doc =
     list_all (\<lambda>(section_name, section_data).
        case section_data of
          PDict fs \<Rightarrow> list_all (\<lambda>(field_name, field_data). tags_is_list field_data) fs
        | _ \<Rightarrow> True) doc"

fun has_empty_tags :: "pyval \<Rightarrow> bool" where
  "has_empty_tags (PDict element) = (map_of element ''tags'' = Some (PList []))"
| "has_empty_tags _ = False"

definition empty_tag_fields :: "pydict \<Rightarrow> (string \<times> string) list" where
  "empty_tag_fields doc =
     concat (map (\<lambda>(section_name, section_data).
        case section_data of
          PDict fs \<Rightarrow>
            map (\<lambda>(field_name, field_data). (section_name, field_name))
              (filter (\<lambda>(field_name, field_data). has_empty_tags field_data) fs)
        | _ \<Rightarrow> []) doc)"

text \<open>
  The issues of type \<^verbatim>\<open>missing_tags\<close> that one entry of the document contributes:
  one for each field the test of line 208 accepts, none when the section is not a
  dictionary.
\<close>

fun section_issues :: "string \<times> pyval \<Rightarrow> issue list" where
  "section_issues (sn, PDict fs)
     = map (\<lambda>p. missing_tags_issue sn (fst p)) (filter (\<lambda>(fn, fd). untagged fd) fs)"
| "section_issues (sn, _) = []"

section \<open>An example registry\<close>

text \<open>
  A small registry for the concrete evaluations below. The key \<^verbatim>\<open>Rev\<close> stands before
  \<^verbatim>\<open>Revenue\<close> and is contained in it.
\<close>

definition rev_tag :: tag where
  "rev_tag = \<lparr>element_name = ''Rev'', data_type = ''monetary'', balance_type = Some ''credit'',
     period_type = ''duration'', description = ''Revenue, short form''\<rparr>"

definition revenue_tag :: tag where
  "revenue_tag = \<lparr>element_name = ''Revenue'', data_type = ''monetary'',
     balance_type = Some ''credit'', period_type = ''duration'', description = ''Revenue''\<rparr>"

definition assets_tag :: tag where
  "assets_tag = \<lparr>element_name = ''TotalAssets'', data_type = ''monetary'',
     balance_type = Some ''debit'', period_type = ''instant'', description = ''Total assets''\<rparr>"

definition position_tag :: tag where
  "position_tag = \<lparr>element_name = ''StatementOfFinancialPositionAbstract'',
     data_type = ''string'', balance_type = None, period_type = ''instant'',
     description = ''Statement of financial position''\<rparr>"

definition example_deps :: deps where
  "example_deps = \<lparr>field_tags = [(''Rev'', [rev_tag]), (''Revenue'', [revenue_tag]),
                                  (''TotalAssets'', [assets_tag])],
     statement_tags = [position_tag],
     mandatory_fields = [(''Revenue'', True), (''TotalAssets'', True), (''Notes'', False)]\<rparr>"

text \<open>
  Two tagged documents: in the first the field \<^verbatim>\<open>Other\<close> has no tags and no section
  has the mandatory field \<^verbatim>\<open>TotalAssets\<close>; the second adds a section that has it.
\<close>

definition example_document :: pydict where
  "example_document =
     [(''incomeStatement'', PDict
        [(''meta_tags'', PList []),
         (''Revenue'', PDict [(''value'', PInt 100), (''tags'', PList [tag_dict revenue_tag])]),
         (''Other'', PDict [(''value'', PInt 3), (''tags'', PList [])])])]"

definition complete_document :: pydict where
  "complete_document =
     example_document
     @ [(''statementOfFinancialPosition'', PDict
          [(''meta_tags'', PList [tag_dict position_tag]),
           (''TotalAssets'', PDict [(''value'', PInt 500), (''tags'', PList [tag_dict assets_tag])])])]"

section \<open>Sorting dictionary items\<close>

text \<open>
  \<^verbatim>\<open>sorted(d.items())\<close> compares pairs, name first. The names of a dictionary are
  distinct, so the result is the one list of the items whose names ascend.
\<close>

lemma pairs_eq_if_keys_eq:
  "map fst xs = map fst ys \<Longrightarrow> distinct (map fst xs) \<Longrightarrow> set xs = set ys \<Longrightarrow> xs = ys"
proof (induction xs arbitrary: ys)
  case Nil
  then show ?case by simp
next
  case (Cons x xs)
  then obtain y ys' where ys: "ys = y # ys'" "fst y = fst x" "map fst xs = map fst ys'"
    by (cases ys) auto
  have nx: "fst x \<notin> fst ` set xs" using Cons.prems(2) by simp
  have "fst ` set xs = fst ` set ys'" using arg_cong[OF ys(3), of set] by simp
  with nx have ny: "fst x \<notin> fst ` set ys'" by simp
  have "x \<in> set (y # ys')" using Cons.prems(3) ys by auto
  with ny have xy: "x = y" by (auto simp: image_iff)
  have "set xs = set ys'"
  proof -
    have "x \<notin> set xs" "x \<notin> set ys'" using nx ny by (auto simp: image_iff)
    moreover have "insert x (set xs) = insert x (set ys')" using Cons.prems(3) ys xy by simp
    ultimately show ?thesis by (simp add: insert_ident)
  qed
  with Cons.IH[OF ys(3)] Cons.prems(2) have "xs = ys'" by simp
  with xy ys show ?case by simp
qed

lemma sorted_keys_unique:
  assumes "sorted (map fst xs)" "distinct (map fst xs)"
    and "sorted (map fst ys)" "distinct (map fst ys)" and "set xs = set ys"
  shows "xs = (ys :: ('a::linorder \<times> 'b) list)"
proof -
  have "set (map fst xs) = set (map fst ys)" using assms(5) by simp
  with assms have "map fst xs = map fst ys"
    by (intro sorted_distinct_set_unique)
  then show ?thesis using assms(2,5) by (rule pairs_eq_if_keys_eq)
qed

lemma sorted_fst_if_sorted:
  "sorted (xs :: ('a::linorder \<times> 'b::linorder) list) \<Longrightarrow> sorted (map fst xs)"
  by (induction xs) (auto simp: less_eq_prod_def)

lemma distinct_keys_sort:
  "distinct (map fst d) \<Longrightarrow> distinct (map fst (sort (d :: ('a::linorder \<times> 'b::linorder) list)))"
  by (simp add: distinct_map)

lemma sort_pairs_by_key:
  assumes "distinct (map fst (d :: ('a::linorder \<times> 'b::linorder) list))"
  shows "sort d = sort_key fst d"
proof (rule sorted_keys_unique)
  show "sorted (map fst (sort d))" by (simp add: sorted_fst_if_sorted)
  show "distinct (map fst (sort d))" using assms by (rule distinct_keys_sort)
  show "sorted (map fst (sort_key fst d))" by simp
  show "distinct (map fst (sort_key fst d))" using assms by (simp add: distinct_map)
  show "set (sort d) = set (sort_key fst d)" by simp
qed

section \<open>Dates as digits\<close>

text \<open>
  For a year of four digits the numeral of the year is the year on four digits, and a
  month or a day filled to two digits is the month or the day on two digits.
\<close>

lemma digit_char: "n < 10 \<Longrightarrow> digit n = char_of (48 + n)"
proof -
  have "\<forall>k \<in> set [0..<10]. digit k = char_of (48 + k)" by code_simp
  moreover assume "n < 10"
  ultimately show ?thesis by simp
qed

lemma fixed_width_zero: "fixed_width w 0 = replicate w (CHR ''0'')"
proof (induction w)
  case 0
  show ?case by simp
next
  case (Suc w)
  have "char_of (48::nat) = CHR ''0''" by code_simp
  with Suc show ?case by (simp add: replicate_append_same)
qed

lemma zero_pad_fixed: "0 < w \<Longrightarrow> n < 10 ^ w \<Longrightarrow> zero_pad w n = fixed_width w n"
proof (induction w arbitrary: n)
  case 0
  then show ?case by simp
next
  case (Suc w)
  show ?case
  proof (cases "n < 10")
    case True
    then have "dec n = [digit n]" by (subst dec.simps) simp
    with True show ?thesis
      by (simp add: zero_pad_def fixed_width_zero digit_char)
  next
    case False
    then have d: "dec n = dec (n div 10) @ [digit (n mod 10)]"
      by (subst dec.simps) simp
    have w: "0 < w" using False Suc.prems(2) by (cases w) simp_all
    have "n div 10 < 10 ^ w" using Suc.prems(2) by (simp add: less_mult_imp_div_less)
    from Suc.IH[OF w this] show ?thesis
      by (simp add: zero_pad_def d digit_char)
  qed
qed

lemma dec_fixed:
  "0 < w \<Longrightarrow> 10 ^ (w - 1) \<le> n \<Longrightarrow> n < 10 ^ w \<Longrightarrow> dec n = fixed_width w n"
proof (induction w arbitrary: n)
  case 0
  then show ?case by simp
next
  case (Suc w)
  show ?case
  proof (cases w)
    case 0
    with Suc.prems have "n < 10" by simp
    then have "dec n = [digit n]" by (subst dec.simps) simp
    with \<open>n < 10\<close> 0 show ?thesis by (simp add: digit_char)
  next
    case (Suc v)
    with Suc.prems have ge: "10 * 10 ^ v \<le> n" by simp
    moreover have "(1::nat) \<le> 10 ^ v" by simp
    ultimately have "10 \<le> n" by linarith
    then have d: "dec n = dec (n div 10) @ [digit (n mod 10)]"
      by (subst dec.simps) simp
    have lo: "10 ^ (w - 1) \<le> n div 10" using ge Suc by (simp add: less_eq_div_iff_mult_less_eq)
    have hi: "n div 10 < 10 ^ w" using Suc.prems(3) by (simp add: less_mult_imp_div_less)
    have "0 < w" using Suc by simp
    from Suc.IH[OF this lo hi] show ?thesis by (simp add: d digit_char)
  qed
qed

lemma days_in_month_le: "days_in_month y m \<le> 31"
  by (simp add: days_in_month_def)

lemma strftime_Ymd_yyyymmdd:
  assumes "valid_date d" "1000 \<le> year d"
  shows "strftime_Ymd d = yyyymmdd d"
proof -
  have y: "dec (year d) = fixed_width 4 (year d)"
    using assms by (intro dec_fixed) (simp_all add: valid_date_def)
  have "month d < 10 ^ 2" using assms(1) by (simp add: valid_date_def)
  then have m: "zero_pad 2 (month d) = fixed_width 2 (month d)"
    by (intro zero_pad_fixed) simp_all
  have "day d \<le> 31" using assms(1) days_in_month_le[of "year d" "month d"]
    by (simp add: valid_date_def)
  then have "day d < 10 ^ 2" by simp
  then have dd: "zero_pad 2 (day d) = fixed_width 2 (day d)"
    by (intro zero_pad_fixed) simp_all
  show ?thesis by (simp add: strftime_Ymd_def yyyymmdd_def y m dd)
qed

section \<open>The context identifier\<close>

lemma map_of_create_context_info_id:
  "map_of (create_context_info en ei pe ps c dims) ''id'' = Some (PStr (context_id pe ps c dims))"
  by (simp add: create_context_info_def dict_set_def update_conv' Let_def split: option.split)

lemma context_id_spec:
  assumes "valid_date pe" "1000 \<le> year pe"
    and "\<forall>s. ps = Some s \<longrightarrow> valid_date s \<and> 1000 \<le> year s"
    and "\<forall>ds. dims = Some ds \<longrightarrow> distinct (map fst ds)"
  shows "context_id pe ps c dims = spec_identifier pe ps c dims"
proof -
  have e: "strftime_Ymd pe = yyyymmdd pe" using assms(1,2) by (rule strftime_Ymd_yyyymmdd)
  have pp: "period_part pe ps
      = (case ps of
           None \<Rightarrow> ''i'' @ yyyymmdd pe
         | Some s \<Rightarrow> ''d'' @ yyyymmdd s @ ''to'' @ yyyymmdd pe)"
  proof (cases ps)
    case None
    then show ?thesis by (simp add: period_part_def e)
  next
    case (Some s)
    with assms(3) have "strftime_Ymd s = yyyymmdd s" by (simp add: strftime_Ymd_yyyymmdd)
    with Some show ?thesis by (simp add: period_part_def e)
  qed
  show ?thesis
  proof (cases dims)
    case None
    then show ?thesis
      by (simp add: context_id_def spec_identifier_def pp Let_def)
  next
    case (Some ds)
    with assms(4) have "sort ds = sort_key fst ds" by (simp add: sort_pairs_by_key)
    moreover have "(sort_key fst ds = []) = (ds = [])"
      using length_sort[of fst ds] by (metis length_0_conv)
    ultimately show ?thesis using Some
      by (simp add: context_id_def spec_identifier_def pp dim_parts_def Let_def)
  qed
qed

text \<open>
  A year of three digits: for the instant context of 1 January 999 the identifier
  carries seven digits, not the eight of YYYYMMDD.
\<close>

theorem create_context_info_id_short_year:
  "valid_date \<lparr>year = 999, month = 1, day = 1\<rparr>
   \<and> yyyymmdd \<lparr>year = 999, month = 1, day = 1\<rparr> = ''09990101''
   \<and> map_of (create_context_info ''Acme Pte Ltd'' ''201912345K''
               \<lparr>year = 999, month = 1, day = 1\<rparr> None False None) ''id''
       = Some (PStr ''ctx_i9990101_s'')
   \<and> map_of (create_context_info ''Acme Pte Ltd'' ''201912345K''
               \<lparr>year = 999, month = 1, day = 1\<rparr> None False None) ''id''
       \<noteq> Some (PStr (''ctx_i'' @ yyyymmdd \<lparr>year = 999, month = 1, day = 1\<rparr> @ ''_s''))"
  by code_simp

text \<open>
  C1, as the code has it. For dates whose years have four digits, the identifier that
  \<^verbatim>\<open>create_context_info\<close> stores under \<^verbatim>\<open>id\<close> is the one the specification describes:
  \<^verbatim>\<open>ctx_i\<close> and the end date as YYYYMMDD when there is no start date, \<^verbatim>\<open>ctx_d\<close>, the
  start date, \<^verbatim>\<open>to\<close> and the end date otherwise, then an underscore and the scope
  letter, then, for a non-empty dimension mapping, the name-value pairs sorted by name
  and joined by underscores. The three examples of the specification evaluate to the
  identifiers it gives.
\<close>

theorem create_context_info_id_format:
  "(valid_date period_end \<and> 1000 \<le> year period_end
    \<and> (\<forall>s. period_start = Some s \<longrightarrow> valid_date s \<and> 1000 \<le> year s)
    \<and> (\<forall>ds. dimensions = Some ds \<longrightarrow> distinct (map fst ds)) \<longrightarrow>
      map_of (create_context_info entity_name entity_identifier period_end period_start
                is_consolidated dimensions) ''id''
        = Some (PStr (spec_identifier period_end period_start is_consolidated dimensions)))
   \<and> map_of (create_context_info entity_name entity_identifier
               \<lparr>year = 2023, month = 12, day = 31\<rparr> None False None) ''id''
       = Some (PStr ''ctx_i20231231_s'')
   \<and> map_of (create_context_info entity_name entity_identifier
               \<lparr>year = 2023, month = 12, day = 31\<rparr>
               (Some \<lparr>year = 2023, month = 1, day = 1\<rparr>) True None) ''id''
       = Some (PStr ''ctx_d20230101to20231231_c'')
   \<and> map_of (create_context_info entity_name entity_identifier
               \<lparr>year = 2023, month = 12, day = 31\<rparr>
               (Some \<lparr>year = 2023, month = 1, day = 1\<rparr>) True
               (Some [(''segment'', ''retail''), (''region'', ''apac'')])) ''id''
       = Some (PStr ''ctx_d20230101to20231231_c_region-apac_segment-retail'')"
proof (intro conjI impI)
  assume "valid_date period_end \<and> 1000 \<le> year period_end
    \<and> (\<forall>s. period_start = Some s \<longrightarrow> valid_date s \<and> 1000 \<le> year s)
    \<and> (\<forall>ds. dimensions = Some ds \<longrightarrow> distinct (map fst ds))"
  then have "context_id period_end period_start is_consolidated dimensions
               = spec_identifier period_end period_start is_consolidated dimensions"
    by (intro context_id_spec) simp_all
  then show "map_of (create_context_info entity_name entity_identifier period_end period_start
                is_consolidated dimensions) ''id''
        = Some (PStr (spec_identifier period_end period_start is_consolidated dimensions))"
    by (simp add: map_of_create_context_info_id)
next
  have "context_id \<lparr>year = 2023, month = 12, day = 31\<rparr> None False None = ''ctx_i20231231_s''"
    by code_simp
  then show "map_of (create_context_info entity_name entity_identifier
               \<lparr>year = 2023, month = 12, day = 31\<rparr> None False None) ''id''
       = Some (PStr ''ctx_i20231231_s'')"
    by (simp add: map_of_create_context_info_id)
next
  have "context_id \<lparr>year = 2023, month = 12, day = 31\<rparr> (Some \<lparr>year = 2023, month = 1, day = 1\<rparr>) True None
          = ''ctx_d20230101to20231231_c''"
    by code_simp
  then show "map_of (create_context_info entity_name entity_identifier
               \<lparr>year = 2023, month = 12, day = 31\<rparr>
               (Some \<lparr>year = 2023, month = 1, day = 1\<rparr>) True None) ''id''
       = Some (PStr ''ctx_d20230101to20231231_c'')"
    by (simp add: map_of_create_context_info_id)
next
  have "context_id \<lparr>year = 2023, month = 12, day = 31\<rparr> (Some \<lparr>year = 2023, month = 1, day = 1\<rparr>) True
          (Some [(''segment'', ''retail''), (''region'', ''apac'')])
          = ''ctx_d20230101to20231231_c_region-apac_segment-retail''"
    by code_simp
  then show "map_of (create_context_info entity_name entity_identifier
               \<lparr>year = 2023, month = 12, day = 31\<rparr>
               (Some \<lparr>year = 2023, month = 1, day = 1\<rparr>) True
               (Some [(''segment'', ''retail''), (''region'', ''apac'')])) ''id''
       = Some (PStr ''ctx_d20230101to20231231_c_region-apac_segment-retail'')"
    by (simp add: map_of_create_context_info_id)
qed

theorem create_context_info_id_format_witness:
  "valid_date \<lparr>year = 1987, month = 6, day = 30\<rparr>
   \<and> valid_date \<lparr>year = 1986, month = 7, day = 1\<rparr>
   \<and> distinct (map fst [(''segment'', ''retail''), (''region'', ''apac'')])
   \<and> map_of (create_context_info ''Acme Pte Ltd'' ''201912345K''
               \<lparr>year = 1987, month = 6, day = 30\<rparr>
               (Some \<lparr>year = 1986, month = 7, day = 1\<rparr>) True
               (Some [(''segment'', ''retail''), (''region'', ''apac'')])) ''id''
       = Some (PStr (spec_identifier \<lparr>year = 1987, month = 6, day = 30\<rparr>
               (Some \<lparr>year = 1986, month = 7, day = 1\<rparr>) True
               (Some [(''segment'', ''retail''), (''region'', ''apac'')])))
   \<and> spec_identifier \<lparr>year = 1987, month = 6, day = 30\<rparr>
               (Some \<lparr>year = 1986, month = 7, day = 1\<rparr>) True
               (Some [(''segment'', ''retail''), (''region'', ''apac'')])
       = ''ctx_d19860701to19870630_c_region-apac_segment-retail''"
proof -
  have v: "valid_date \<lparr>year = 1987, month = 6, day = 30\<rparr>"
    "valid_date \<lparr>year = 1986, month = 7, day = 1\<rparr>"
    by code_simp+
  have s: "spec_identifier \<lparr>year = 1987, month = 6, day = 30\<rparr>
               (Some \<lparr>year = 1986, month = 7, day = 1\<rparr>) True
               (Some [(''segment'', ''retail''), (''region'', ''apac'')])
       = ''ctx_d19860701to19870630_c_region-apac_segment-retail''"
    by code_simp
  have h: "valid_date \<lparr>year = 1987, month = 6, day = 30\<rparr>
      \<and> 1000 \<le> year \<lparr>year = 1987, month = 6, day = 30\<rparr>
      \<and> (\<forall>s. Some \<lparr>year = 1986, month = 7, day = 1\<rparr> = Some s
             \<longrightarrow> valid_date s \<and> 1000 \<le> year s)
      \<and> (\<forall>ds. Some [(''segment'', ''retail''), (''region'', ''apac'')] = Some ds
             \<longrightarrow> distinct (map fst ds))"
    using v by simp
  from create_context_info_id_format
    [of "\<lparr>year = 1987, month = 6, day = 30\<rparr>"
        "Some \<lparr>year = 1986, month = 7, day = 1\<rparr>"
        "Some [(''segment'', ''retail''), (''region'', ''apac'')]"
        "''Acme Pte Ltd''" "''201912345K''" True, THEN conjunct1, THEN mp, OF h]
  show ?thesis using v s by simp
qed

text \<open>The joined string around one of its parts.\<close>

lemma join_Cons: "join sep (b # cs) = b @ concat (map (\<lambda>c. sep @ c) cs)"
  by (induction cs arbitrary: b) simp_all

lemma join_around:
  "join sep (as @ b # cs)
     = concat (map (\<lambda>a. a @ sep) as) @ b @ concat (map (\<lambda>c. sep @ c) cs)"
proof (induction as)
  case Nil
  show ?case by (simp add: join_Cons)
next
  case (Cons a as)
  have "join sep ((a # as) @ b # cs) = a @ sep @ join sep (as @ b # cs)"
    by (cases as) simp_all
  with Cons show ?case by simp
qed

lemma sort_same_contents:
  assumes "distinct (map fst d1)" "distinct (map fst d2)" "set d1 = set d2"
  shows "sort d1 = sort (d2 :: ('a::linorder \<times> 'b::linorder) list)"
proof (rule sorted_keys_unique)
  show "sorted (map fst (sort d1))" "sorted (map fst (sort d2))"
    by (simp_all add: sorted_fst_if_sorted)
  show "distinct (map fst (sort d1))" "distinct (map fst (sort d2))"
    using assms by (simp_all add: distinct_keys_sort)
  show "set (sort d1) = set (sort d2)" using assms by simp
qed

lemma context_id_same_contents:
  assumes "distinct (map fst d1)" "distinct (map fst d2)" "set d1 = set d2"
  shows "context_id pe ps c (Some d1) = context_id pe ps c (Some d2)"
proof -
  have "sort d1 = sort d2" using assms by (rule sort_same_contents)
  then have "dim_parts d1 = dim_parts d2" by (simp add: dim_parts_def)
  moreover have "(d1 = []) = (d2 = [])" using assms(3) by (metis set_empty)
  ultimately show ?thesis unfolding context_id_def Let_def by simp
qed

lemma context_id_start_presence:
  "context_id pe None c dims \<noteq> context_id pe (Some s) c dims"
  by (simp add: context_id_def period_part_def Let_def split: option.split)

lemma context_id_scope:
  "context_id pe ps True dims \<noteq> context_id pe ps False dims"
  by (simp add: context_id_def Let_def split: option.split)

lemma sort_value_changed:
  assumes d1: "distinct (map fst d1)" and d2: "distinct (map fst d2)"
    and kv: "(k, v) \<in> set d1"
    and c: "set d2 = insert (k, v') (set d1 - {(k, v)})"
  shows "\<exists>xs ys. sort d1 = xs @ (k, v) # ys \<and> sort d2 = xs @ (k, v') # ys"
proof -
  have "(k, v) \<in> set (sort d1)" using kv by simp
  from split_list[OF this] obtain xs ys where s1: "sort d1 = xs @ (k, v) # ys"
    by blast
  have sk: "sorted (map fst (sort d1))" by (simp add: sorted_fst_if_sorted)
  have dk: "distinct (map fst (sort d1))" using d1 by (rule distinct_keys_sort)
  have "distinct (sort d1)" using d1 by (simp add: distinct_map)
  then have nin: "(k, v) \<notin> set xs" "(k, v) \<notin> set ys" unfolding s1 by auto
  have "set d1 = set (sort d1)" by simp
  then have sd1: "set d1 = insert (k, v) (set xs \<union> set ys)" unfolding s1 by auto
  have "sort d2 = xs @ (k, v') # ys"
  proof (rule sorted_keys_unique)
    show "sorted (map fst (sort d2))" by (simp add: sorted_fst_if_sorted)
    show "distinct (map fst (sort d2))" using d2 by (rule distinct_keys_sort)
    show "sorted (map fst (xs @ (k, v') # ys))" using sk unfolding s1 by simp
    show "distinct (map fst (xs @ (k, v') # ys))" using dk unfolding s1 by simp
    show "set (sort d2) = set (xs @ (k, v') # ys)"
      using c sd1 nin by auto
  qed
  with s1 show ?thesis by blast
qed

lemma context_id_value_changed:
  assumes d1: "distinct (map fst d1)" and d2: "distinct (map fst d2)"
    and kv: "(k, v) \<in> set d1" and ne: "v' \<noteq> v"
    and c: "set d2 = insert (k, v') (set d1 - {(k, v)})"
  shows "context_id pe ps cons (Some d1) \<noteq> context_id pe ps cons (Some d2)"
proof -
  obtain xs ys where s: "sort d1 = xs @ (k, v) # ys" "sort d2 = xs @ (k, v') # ys"
    using sort_value_changed[OF d1 d2 kv c] by blast
  have n1: "d1 \<noteq> []" using kv by auto
  have n2: "d2 \<noteq> []" using c by auto
  show ?thesis using n1 n2 ne
    by (simp add: context_id_def Let_def dim_parts_def s join_around)
qed

text \<open>
  C4. Equal arguments give equal identifiers, also when the dimension mapping lists
  the same entries in another insertion order; and the identifier changes with the
  presence of a start date, with the consolidation flag, and with the value of any
  single dimension while the other entries stay as they are.
\<close>

theorem create_context_info_id_deterministic_sensitive:
  "(distinct (map fst da) \<and> distinct (map fst db) \<and> set da = set db \<longrightarrow>
      map_of (create_context_info en ei pe ps c (Some da)) ''id''
        = map_of (create_context_info en ei pe ps c (Some db)) ''id'')
   \<and> map_of (create_context_info en ei pe None c dims) ''id''
       \<noteq> map_of (create_context_info en ei pe (Some s) c dims) ''id''
   \<and> map_of (create_context_info en ei pe ps True dims) ''id''
       \<noteq> map_of (create_context_info en ei pe ps False dims) ''id''
   \<and> (distinct (map fst d1) \<and> distinct (map fst d2) \<and> (k, v) \<in> set d1 \<and> v' \<noteq> v
        \<and> set d2 = insert (k, v') (set d1 - {(k, v)}) \<longrightarrow>
      map_of (create_context_info en ei pe ps c (Some d1)) ''id''
        \<noteq> map_of (create_context_info en ei pe ps c (Some d2)) ''id'')"
proof (intro conjI impI)
  assume "distinct (map fst da) \<and> distinct (map fst db) \<and> set da = set db"
  then show "map_of (create_context_info en ei pe ps c (Some da)) ''id''
        = map_of (create_context_info en ei pe ps c (Some db)) ''id''"
    by (simp add: map_of_create_context_info_id context_id_same_contents)
next
  show "map_of (create_context_info en ei pe None c dims) ''id''
       \<noteq> map_of (create_context_info en ei pe (Some s) c dims) ''id''"
    by (simp add: map_of_create_context_info_id context_id_start_presence)
next
  show "map_of (create_context_info en ei pe ps True dims) ''id''
       \<noteq> map_of (create_context_info en ei pe ps False dims) ''id''"
    by (simp add: map_of_create_context_info_id context_id_scope)
next
  assume "distinct (map fst d1) \<and> distinct (map fst d2) \<and> (k, v) \<in> set d1 \<and> v' \<noteq> v
        \<and> set d2 = insert (k, v') (set d1 - {(k, v)})"
  then have "context_id pe ps c (Some d1) \<noteq> context_id pe ps c (Some d2)"
    by (intro context_id_value_changed[of d1 d2 k v v']) simp_all
  then show "map_of (create_context_info en ei pe ps c (Some d1)) ''id''
        \<noteq> map_of (create_context_info en ei pe ps c (Some d2)) ''id''"
    by (simp add: map_of_create_context_info_id)
qed

theorem create_context_info_id_deterministic_sensitive_witness:
  "map_of (create_context_info ''Acme Pte Ltd'' ''201912345K''
             \<lparr>year = 2023, month = 12, day = 31\<rparr> None False
             (Some [(''segment'', ''retail''), (''region'', ''apac'')])) ''id''
     = map_of (create_context_info ''Acme Pte Ltd'' ''201912345K''
             \<lparr>year = 2023, month = 12, day = 31\<rparr> None False
             (Some [(''region'', ''apac''), (''segment'', ''retail'')])) ''id''
   \<and> map_of (create_context_info ''Acme Pte Ltd'' ''201912345K''
             \<lparr>year = 2023, month = 12, day = 31\<rparr> None False
             (Some [(''segment'', ''retail''), (''region'', ''apac'')])) ''id''
     \<noteq> map_of (create_context_info ''Acme Pte Ltd'' ''201912345K''
             \<lparr>year = 2023, month = 12, day = 31\<rparr> None False
             (Some [(''region'', ''emea''), (''segment'', ''retail'')])) ''id''"
proof -
  have a: "distinct (map fst [(''segment'', ''retail''), (''region'', ''apac'')])
      \<and> distinct (map fst [(''region'', ''apac''), (''segment'', ''retail'')])
      \<and> set [(''segment'', ''retail''), (''region'', ''apac'')]
          = set [(''region'', ''apac''), (''segment'', ''retail'')]"
    by auto
  have b: "distinct (map fst [(''segment'', ''retail''), (''region'', ''apac'')])
      \<and> distinct (map fst [(''region'', ''emea''), (''segment'', ''retail'')])
      \<and> (''region'', ''apac'') \<in> set [(''segment'', ''retail''), (''region'', ''apac'')]
      \<and> ''emea'' \<noteq> ''apac''
      \<and> set [(''region'', ''emea''), (''segment'', ''retail'')]
          = insert (''region'', ''emea'')
              (set [(''segment'', ''retail''), (''region'', ''apac'')] - {(''region'', ''apac'')})"
    by auto
  show ?thesis
    using a b create_context_info_id_deterministic_sensitive
      [of "[(''segment'', ''retail''), (''region'', ''apac'')]"
          "[(''region'', ''apac''), (''segment'', ''retail'')]"
          "''Acme Pte Ltd''" "''201912345K''" "\<lparr>year = 2023, month = 12, day = 31\<rparr>"
          None False None "\<lparr>year = 2023, month = 1, day = 1\<rparr>"
          "[(''segment'', ''retail''), (''region'', ''apac'')]"
          "[(''region'', ''emea''), (''segment'', ''retail'')]"
          "''region''" "''apac''" "''emea''"]
    by blast
qed

text \<open>
  Two entities, one identifier: the claim that contexts of distinct entities never
  share an identifier fails on the instant context of 2023-12-31.
\<close>

theorem create_context_info_id_entity_collision:
  "''Acme Pte Ltd'' \<noteq> ''Beta Pte Ltd'' \<and> ''201912345K'' \<noteq> ''202054321Z''
   \<and> map_of (create_context_info ''Acme Pte Ltd'' ''201912345K''
               \<lparr>year = 2023, month = 12, day = 31\<rparr> None False None) ''id''
     = map_of (create_context_info ''Beta Pte Ltd'' ''202054321Z''
               \<lparr>year = 2023, month = 12, day = 31\<rparr> None False None) ''id''"
  by (simp add: map_of_create_context_info_id)

text \<open>
  C3, as the code has it. The identifier is built from the period, the scope and the
  dimensions only: two calls that differ in the entity name or the entity identifier
  alone yield the same identifier, and the entity is recorded under the key
  \<^verbatim>\<open>entity\<close> of the descriptor.
\<close>

theorem create_context_info_id_ignores_entity:
  "map_of (create_context_info en ei pe ps c dims) ''id''
     = map_of (create_context_info en' ei' pe ps c dims) ''id''
   \<and> map_of (create_context_info en ei pe ps c dims) ''entity''
     = Some (PDict [(''name'', PStr en), (''identifier'', PStr ei)])"
  by (simp add: create_context_info_def dict_set_def update_conv' Let_def split: option.split)

theorem create_context_info_id_ignores_entity_witness:
  "map_of (create_context_info ''Acme Pte Ltd'' ''201912345K''
             \<lparr>year = 2023, month = 12, day = 31\<rparr> None False None) ''id''
     = map_of (create_context_info ''Beta Pte Ltd'' ''202054321Z''
             \<lparr>year = 2023, month = 12, day = 31\<rparr> None False None) ''id''
   \<and> map_of (create_context_info ''Acme Pte Ltd'' ''201912345K''
             \<lparr>year = 2023, month = 12, day = 31\<rparr> None False None) ''entity''
     = Some (PDict [(''name'', PStr ''Acme Pte Ltd''), (''identifier'', PStr ''201912345K'')])"
  by (rule create_context_info_id_ignores_entity)

section \<open>The tag resolver\<close>

lemma apply_tags_to_element_tags:
  "map_of (apply_tags_to_element str_lower d element val st ii) ''tags''
     = Some (PList (map tag_dict (fst (find_tags str_lower d element))))"
  by (cases "find_tags str_lower d element") (simp add: apply_tags_to_element_def Let_def)

lemma apply_tags_to_element_messages:
  "map_of (apply_tags_to_element str_lower d element val st ii) ''messages''
     = Some (PList (map PStr
         (snd (find_tags str_lower d element)
          @ (if (case map_of (mandatory_fields d) element of Some m \<Rightarrow> m | None \<Rightarrow> False)
             then [''Note: '' @ element @ '' is a mandatory field''] else []))))"
  by (cases "find_tags str_lower d element") (simp add: apply_tags_to_element_def Let_def)



lemma map_of_None_if_not_key: "k \<notin> fst ` set xs \<Longrightarrow> map_of xs k = None"
  by (simp add: map_of_eq_None_iff)

text \<open>
  C5. A field name that is a key of the registry's field-tag index resolves to the
  tag sequence of that entry, and the first message reports the exact match,
  whatever other keys of the registry contain the name or are contained in it.
\<close>

theorem apply_tags_to_element_exact:
  assumes "distinct (map fst (field_tags d))"
    and "(element, ts) \<in> set (field_tags d)"
  shows "map_of (apply_tags_to_element str_lower d element val statement_type is_instant) ''tags''
           = Some (PList (map tag_dict ts))
         \<and> (\<exists>rest. map_of (apply_tags_to_element str_lower d element val statement_type is_instant)
                      ''messages''
               = Some (PList (PStr (''Found exact tag match for '' @ element) # rest)))"
proof -
  have "map_of (field_tags d) element = Some ts" using assms by simp
  then have "find_tags str_lower d element = (ts, [''Found exact tag match for '' @ element])"
    by (simp add: find_tags_def)
  then show ?thesis
    by (simp add: apply_tags_to_element_tags apply_tags_to_element_messages)
qed

theorem apply_tags_to_element_exact_witness:
  "fuzzy_match ascii_lower ''Revenue'' ''Rev''
   \<and> map_of (apply_tags_to_element ascii_lower example_deps ''Revenue'' (PInt 100) ''income_statement'' False)
         ''tags''
       = Some (PList [tag_dict revenue_tag])"
proof -
  have f: "fuzzy_match ascii_lower ''Revenue'' ''Rev''" by code_simp
  have d: "distinct (map fst (field_tags example_deps))"
    by (simp add: example_deps_def)
  have m: "(''Revenue'', [revenue_tag]) \<in> set (field_tags example_deps)"
    by (simp add: example_deps_def)
  show ?thesis
    using f apply_tags_to_element_exact[OF d m, of ascii_lower "PInt 100" "''income_statement''" False]
    by simp
qed








section \<open>The section tagger\<close>

lemma map_of_tag_elements:
  "distinct (map fst sd) \<Longrightarrow>
   map_of (tag_elements d sd ts) k =
     (case map_of sd k of
        None \<Rightarrow> map_of ts k
      | Some v \<Rightarrow>
          if is_list_or_dict v then map_of ts k
          else Some (PDict [(''value'', v),
                            (''tags'', PList (map tag_dict
                               (case map_of (field_tags d) k of Some t \<Rightarrow> t | None \<Rightarrow> [])))]))"
proof (induction sd arbitrary: ts k)
  case Nil
  show ?case by simp
next
  case (Cons p sd)
  obtain e v where p: "p = (e, v)" by (cases p)
  have ds: "distinct (map fst sd)" and ne: "e \<notin> fst ` set sd"
    using Cons.prems p by simp_all
  have none: "map_of sd e = None" using ne by (simp add: map_of_eq_None_iff)
  show ?case
    using none
    by (simp add: p Cons.IH[OF ds] Let_def dict_set_def update_conv' split: option.split)
qed

lemma keys_tag_elements:
  "fst ` set (tag_elements d sd ts)
     = fst ` set ts \<union> {k. \<exists>v. (k, v) \<in> set sd \<and> \<not> is_list_or_dict v}"
proof (induction sd arbitrary: ts)
  case Nil
  show ?case by simp
next
  case (Cons p sd)
  obtain e v where p: "p = (e, v)" by (cases p)
  show ?case
    by (auto simp: p Cons.IH Let_def dict_set_def dom_update)
qed

lemma section_field_tags_scalar:
  assumes "distinct (map fst section_data)" "(field_name, v) \<in> set section_data"
    and "\<not> is_list_or_dict v"
  shows "map_of (tag_statement_section str_lower d section_name section_data) field_name
           = Some (PDict [(''value'', v),
                (''tags'', PList (map tag_dict
                   (case map_of (field_tags d) field_name of Some ts \<Rightarrow> ts | None \<Rightarrow> [])))])"
proof -
  have "map_of section_data field_name = Some v" using assms(1,2) by simp
  then show ?thesis
    using assms(3) by (simp add: tag_statement_section_def map_of_tag_elements[OF assms(1)])
qed

text \<open>
  A lower-case field name that no registry key equals: the section tagger attaches no
  tags, the resolver falls back to the first key that matches by containment.
\<close>

theorem tag_statement_section_not_resolver:
  "section_field_tags
     (tag_statement_section ascii_lower example_deps ''incomeStatement'' [(''revenue'', PInt 100)]) ''revenue''
     = Some (PList [])
   \<and> map_of (apply_tags_to_element ascii_lower example_deps ''revenue'' (PInt 100) ''income_statement'' False)
         ''tags''
     = Some (PList [tag_dict rev_tag])
   \<and> section_field_tags
       (tag_statement_section ascii_lower example_deps ''incomeStatement'' [(''revenue'', PInt 100)]) ''revenue''
     \<noteq> map_of (apply_tags_to_element ascii_lower example_deps ''revenue'' (PInt 100) ''income_statement''
           False) ''tags''"
  by code_simp

text \<open>
  C2, as the code has it. For a scalar entry of the section data the section tagger
  attaches the tag sequence stored under exactly that field name in the registry, and
  the empty sequence when the name is not a key: it has no fuzzy fallback. Its tags
  are those of \<^verbatim>\<open>apply_tags_to_element\<close> whenever the field name is a key of the
  registry.
\<close>

theorem tag_statement_section_exact_only:
  assumes "distinct (map fst section_data)" "(field_name, v) \<in> set section_data"
    and "\<not> is_list_or_dict v"
  shows "section_field_tags (tag_statement_section str_lower d section_name section_data) field_name
           = Some (PList (map tag_dict
               (case map_of (field_tags d) field_name of Some ts \<Rightarrow> ts | None \<Rightarrow> [])))
         \<and> (field_name \<in> fst ` set (field_tags d) \<longrightarrow>
              section_field_tags (tag_statement_section str_lower d section_name section_data) field_name
                = map_of (apply_tags_to_element str_lower d field_name v statement_type is_instant) ''tags'')
         \<and> (field_name \<notin> fst ` set (field_tags d) \<longrightarrow>
              section_field_tags (tag_statement_section str_lower d section_name section_data) field_name
                = Some (PList []))"
proof -
  have a: "section_field_tags (tag_statement_section str_lower d section_name section_data) field_name
           = Some (PList (map tag_dict
               (case map_of (field_tags d) field_name of Some ts \<Rightarrow> ts | None \<Rightarrow> [])))"
    by (simp add: section_field_tags_def section_field_tags_scalar[OF assms])
  have b: "section_field_tags (tag_statement_section str_lower d section_name section_data) field_name
             = map_of (apply_tags_to_element str_lower d field_name v statement_type is_instant) ''tags''"
    if "field_name \<in> fst ` set (field_tags d)"
  proof -
    from that have "map_of (field_tags d) field_name \<noteq> None"
      by (simp add: map_of_eq_None_iff)
    then obtain ts where "map_of (field_tags d) field_name = Some ts" by blast
    then show ?thesis
      by (simp add: a apply_tags_to_element_tags find_tags_def)
  qed
  have c: "section_field_tags (tag_statement_section str_lower d section_name section_data) field_name
             = Some (PList [])"
    if "field_name \<notin> fst ` set (field_tags d)"
    using that by (simp add: a map_of_None_if_not_key)
  show ?thesis using a b c by blast
qed

theorem tag_statement_section_exact_only_witness:
  "section_field_tags
     (tag_statement_section ascii_lower example_deps ''incomeStatement''
        [(''Revenue'', PInt 100), (''revenue'', PInt 7), (''items'', PList [])]) ''Revenue''
     = map_of (apply_tags_to_element ascii_lower example_deps ''Revenue'' (PInt 100) ''income_statement'' False)
         ''tags''
   \<and> section_field_tags
     (tag_statement_section ascii_lower example_deps ''incomeStatement''
        [(''Revenue'', PInt 100), (''revenue'', PInt 7), (''items'', PList [])]) ''revenue''
     = Some (PList [])"
proof -
  have d: "distinct (map fst [(''Revenue'', PInt 100), (''revenue'', PInt 7), (''items'', PList [])])"
    by simp
  have m1: "(''Revenue'', PInt 100)
              \<in> set [(''Revenue'', PInt 100), (''revenue'', PInt 7), (''items'', PList [])]"
    and m2: "(''revenue'', PInt 7)
              \<in> set [(''Revenue'', PInt 100), (''revenue'', PInt 7), (''items'', PList [])]"
    by simp_all
  have k1: "''Revenue'' \<in> fst ` set (field_tags example_deps)"
    and k2: "''revenue'' \<notin> fst ` set (field_tags example_deps)"
    by (simp_all add: example_deps_def)
  have s1: "\<not> is_list_or_dict (PInt 100)" and s2: "\<not> is_list_or_dict (PInt 7)" by simp_all
  show ?thesis
    using tag_statement_section_exact_only
            [OF d m1 s1, of ascii_lower example_deps "''incomeStatement''" "''income_statement''" False]
          tag_statement_section_exact_only
            [OF d m2 s2, of ascii_lower example_deps "''incomeStatement''" "''income_statement''" False]
          k1 k2
    by blast
qed

lemma map_of_meta_tags_kept:
  assumes "distinct (map fst section_data)"
    and "\<forall>v. (''meta_tags'', v) \<in> set section_data \<longrightarrow> is_list_or_dict v"
  shows "map_of (tag_statement_section str_lower d section_name section_data) ''meta_tags''
           = Some (PList (collect_meta_tags str_lower section_name (statement_tags d) []))"
proof (cases "map_of section_data ''meta_tags''")
  case None
  then show ?thesis
    by (simp add: tag_statement_section_def map_of_tag_elements[OF assms(1)])
next
  case (Some v)
  then have "(''meta_tags'', v) \<in> set section_data" by (rule map_of_SomeD)
  with assms(2) have "is_list_or_dict v" by blast
  with Some show ?thesis
    by (simp add: tag_statement_section_def map_of_tag_elements[OF assms(1)])
qed

text \<open>
  The reserved key: a section whose data has a list under \<^verbatim>\<open>meta_tags\<close> still has the
  key \<^verbatim>\<open>meta_tags\<close> in its output.
\<close>

theorem tag_statement_section_meta_tags_key_kept:
  "is_list_or_dict (PList [])
   \<and> ''meta_tags''
       \<in> fst ` set (tag_statement_section ascii_lower example_deps ''notes'' [(''meta_tags'', PList [])])"
  by code_simp

text \<open>
  C9, as the code has it. A key of the section data whose value is a list or a
  dictionary is not a key of the output, unless it is the key \<^verbatim>\<open>meta_tags\<close>, which
  the output always has; under that key the output then holds the section-level tags,
  not the skipped value.
\<close>

theorem tag_statement_section_skips_nested:
  assumes "distinct (map fst section_data)" "(k, v) \<in> set section_data"
    and "is_list_or_dict v"
  shows "(k \<noteq> ''meta_tags'' \<longrightarrow>
            k \<notin> fst ` set (tag_statement_section str_lower d section_name section_data))
         \<and> (k = ''meta_tags'' \<longrightarrow>
            map_of (tag_statement_section str_lower d section_name section_data) k
              = Some (PList (collect_meta_tags str_lower section_name (statement_tags d) [])))"
proof (intro conjI impI)
  have only: "w = v" if "(k, w) \<in> set section_data" for w
    using assms(1,2) that by (meson eq_key_imp_eq_value)
  {
    assume "k \<noteq> ''meta_tags''"
    moreover have "\<not> (\<exists>w. (k, w) \<in> set section_data \<and> \<not> is_list_or_dict w)"
      using only assms(3) by blast
    ultimately show "k \<notin> fst ` set (tag_statement_section str_lower d section_name section_data)"
      by (simp add: tag_statement_section_def keys_tag_elements)
  }
  assume "k = ''meta_tags''"
  with only assms(3) have "\<forall>w. (''meta_tags'', w) \<in> set section_data \<longrightarrow> is_list_or_dict w"
    by blast
  from map_of_meta_tags_kept[OF assms(1) this] \<open>k = ''meta_tags''\<close>
  show "map_of (tag_statement_section str_lower d section_name section_data) k
              = Some (PList (collect_meta_tags str_lower section_name (statement_tags d) []))"
    by simp
qed

theorem tag_statement_section_skips_nested_witness:
  "''items''
     \<notin> fst ` set (tag_statement_section ascii_lower example_deps ''incomeStatement''
                     [(''Revenue'', PInt 100), (''items'', PList [PInt 1]),
                      (''meta_tags'', PDict [])])
   \<and> map_of (tag_statement_section ascii_lower example_deps ''incomeStatement''
               [(''Revenue'', PInt 100), (''items'', PList [PInt 1]), (''meta_tags'', PDict [])])
         ''meta_tags''
     = Some (PList (collect_meta_tags ascii_lower ''incomeStatement'' (statement_tags example_deps) []))"
proof -
  have d: "distinct (map fst [(''Revenue'', PInt 100), (''items'', PList [PInt 1]),
                              (''meta_tags'', PDict [])])"
    by simp
  have m1: "(''items'', PList [PInt 1])
              \<in> set [(''Revenue'', PInt 100), (''items'', PList [PInt 1]), (''meta_tags'', PDict [])]"
    and m2: "(''meta_tags'', PDict [])
              \<in> set [(''Revenue'', PInt 100), (''items'', PList [PInt 1]), (''meta_tags'', PDict [])]"
    by simp_all
  have n1: "is_list_or_dict (PList [PInt 1])" and n2: "is_list_or_dict (PDict [])" by simp_all
  have ne: "''items'' \<noteq> ''meta_tags''" by simp
  show ?thesis
    using tag_statement_section_skips_nested[OF d m1 n1, of ascii_lower example_deps "''incomeStatement''"]
          tag_statement_section_skips_nested[OF d m2 n2, of ascii_lower example_deps "''incomeStatement''"]
          ne
    by blast
qed

lemma distinct_keys_tag_elements:
  "distinct (map fst ts) \<Longrightarrow> distinct (map fst (tag_elements d sd ts))"
proof (induction sd arbitrary: ts)
  case Nil
  then show ?case by simp
next
  case (Cons p sd)
  obtain e v where p: "p = (e, v)" by (cases p)
  show ?case
    using Cons.prems by (simp add: p Let_def dict_set_def Cons.IH distinct_update)
qed

text \<open>
  C10. The output of \<^verbatim>\<open>tag_statement_section\<close> always has the key \<^verbatim>\<open>meta_tags\<close>. When
  the section data has a scalar entry named \<^verbatim>\<open>meta_tags\<close>, the output holds that
  entry's element of value and tags under the key, and the list of section-level tags
  is the value of no key of the output. Without such an entry the key holds the
  section-level tags.
\<close>

theorem tag_statement_section_meta_tags:
  "''meta_tags'' \<in> fst ` set (tag_statement_section str_lower d section_name section_data)
   \<and> (distinct (map fst section_data) \<and> (''meta_tags'', v) \<in> set section_data
        \<and> \<not> is_list_or_dict v \<longrightarrow>
        map_of (tag_statement_section str_lower d section_name section_data) ''meta_tags''
          = Some (PDict [(''value'', v),
               (''tags'', PList (map tag_dict
                  (case map_of (field_tags d) ''meta_tags'' of Some ts \<Rightarrow> ts | None \<Rightarrow> [])))])
        \<and> PList (collect_meta_tags str_lower section_name (statement_tags d) [])
            \<notin> snd ` set (tag_statement_section str_lower d section_name section_data))
   \<and> (distinct (map fst section_data)
        \<and> (\<forall>w. (''meta_tags'', w) \<in> set section_data \<longrightarrow> is_list_or_dict w) \<longrightarrow>
        map_of (tag_statement_section str_lower d section_name section_data) ''meta_tags''
          = Some (PList (collect_meta_tags str_lower section_name (statement_tags d) [])))"
proof (intro conjI impI)
  show "''meta_tags'' \<in> fst ` set (tag_statement_section str_lower d section_name section_data)"
    by (simp add: tag_statement_section_def keys_tag_elements)
next
  assume h: "distinct (map fst section_data) \<and> (''meta_tags'', v) \<in> set section_data
        \<and> \<not> is_list_or_dict v"
  then have ds: "distinct (map fst section_data)" by simp
  from h show el: "map_of (tag_statement_section str_lower d section_name section_data) ''meta_tags''
          = Some (PDict [(''value'', v),
               (''tags'', PList (map tag_dict
                  (case map_of (field_tags d) ''meta_tags'' of Some ts \<Rightarrow> ts | None \<Rightarrow> [])))])"
    by (simp add: section_field_tags_scalar)
  have dk: "distinct (map fst (tag_statement_section str_lower d section_name section_data))"
    by (simp add: tag_statement_section_def distinct_keys_tag_elements)
  show "PList (collect_meta_tags str_lower section_name (statement_tags d) [])
            \<notin> snd ` set (tag_statement_section str_lower d section_name section_data)"
  proof
    assume "PList (collect_meta_tags str_lower section_name (statement_tags d) [])
            \<in> snd ` set (tag_statement_section str_lower d section_name section_data)"
    then obtain k where
      "(k, PList (collect_meta_tags str_lower section_name (statement_tags d) []))
         \<in> set (tag_statement_section str_lower d section_name section_data)"
      by force
    with dk have mk: "map_of (tag_statement_section str_lower d section_name section_data) k
             = Some (PList (collect_meta_tags str_lower section_name (statement_tags d) []))"
      by simp
    show False
    proof (cases "k = ''meta_tags''")
      case True
      with mk el show False by simp
    next
      case False
      with mk show False
        by (simp add: tag_statement_section_def map_of_tag_elements[OF ds]
            split: option.splits if_splits)
    qed
  qed
next
  assume "distinct (map fst section_data)
        \<and> (\<forall>w. (''meta_tags'', w) \<in> set section_data \<longrightarrow> is_list_or_dict w)"
  then show "map_of (tag_statement_section str_lower d section_name section_data) ''meta_tags''
          = Some (PList (collect_meta_tags str_lower section_name (statement_tags d) []))"
    by (simp add: map_of_meta_tags_kept)
qed

theorem tag_statement_section_meta_tags_witness:
  "map_of (tag_statement_section ascii_lower example_deps ''statementOfFinancialPosition''
             [(''TotalAssets'', PInt 500), (''meta_tags'', PStr ''draft'')]) ''meta_tags''
     = Some (PDict [(''value'', PStr ''draft''), (''tags'', PList [])])
   \<and> PList [tag_dict position_tag]
       \<notin> snd ` set (tag_statement_section ascii_lower example_deps ''statementOfFinancialPosition''
                       [(''TotalAssets'', PInt 500), (''meta_tags'', PStr ''draft'')])
   \<and> map_of (tag_statement_section ascii_lower example_deps ''statementOfFinancialPosition''
               [(''TotalAssets'', PInt 500)]) ''meta_tags''
     = Some (PList [tag_dict position_tag])"
proof -
  have cm: "collect_meta_tags ascii_lower ''statementOfFinancialPosition'' (statement_tags example_deps) []
              = [tag_dict position_tag]"
    by code_simp
  have nk: "map_of (field_tags example_deps) ''meta_tags'' = None"
    by (simp add: example_deps_def)
  have h1: "distinct (map fst [(''TotalAssets'', PInt 500), (''meta_tags'', PStr ''draft'')])
      \<and> (''meta_tags'', PStr ''draft'')
          \<in> set [(''TotalAssets'', PInt 500), (''meta_tags'', PStr ''draft'')]
      \<and> \<not> is_list_or_dict (PStr ''draft'')"
    by simp
  have h2: "distinct (map fst [(''TotalAssets'', PInt 500)])
      \<and> (\<forall>w. (''meta_tags'', w) \<in> set [(''TotalAssets'', PInt 500)] \<longrightarrow> is_list_or_dict w)"
    by simp
  from tag_statement_section_meta_tags
         [of ascii_lower example_deps "''statementOfFinancialPosition''"
             "[(''TotalAssets'', PInt 500), (''meta_tags'', PStr ''draft'')]" "PStr ''draft''",
          THEN conjunct2, THEN conjunct1, THEN mp, OF h1]
  have a: "map_of (tag_statement_section ascii_lower example_deps ''statementOfFinancialPosition''
             [(''TotalAssets'', PInt 500), (''meta_tags'', PStr ''draft'')]) ''meta_tags''
     = Some (PDict [(''value'', PStr ''draft''), (''tags'', PList [])])
   \<and> PList [tag_dict position_tag]
       \<notin> snd ` set (tag_statement_section ascii_lower example_deps ''statementOfFinancialPosition''
                       [(''TotalAssets'', PInt 500), (''meta_tags'', PStr ''draft'')])"
    by (simp add: cm nk)
  from tag_statement_section_meta_tags
         [of ascii_lower example_deps "''statementOfFinancialPosition''" "[(''TotalAssets'', PInt 500)]" PNone,
          THEN conjunct2, THEN conjunct2, THEN mp, OF h2]
  have b: "map_of (tag_statement_section ascii_lower example_deps ''statementOfFinancialPosition''
               [(''TotalAssets'', PInt 500)]) ''meta_tags''
     = Some (PList [tag_dict position_tag])"
    by (simp add: cm)
  show ?thesis using a b by blast
qed

section \<open>The document validator\<close>

lemma field_found_iff:
  "field_found f doc \<longleftrightarrow> (\<exists>(sn, sd) \<in> set doc. \<exists>fs. sd = PDict fs \<and> f \<in> fst ` set fs)"
proof (induction doc)
  case Nil
  show ?case by simp
next
  case (Cons p doc)
  obtain sn sd where p: "p = (sn, sd)" by (cases p)
  show ?case
  proof (cases sd)
    case (PDict fs)
    have "(map_of fs f \<noteq> None) = (f \<in> fst ` set fs)" by (simp add: map_of_eq_None_iff)
    with Cons PDict p show ?thesis by auto
  qed (use Cons p in auto)
qed

lemma check_mandatory_eq:
  "check_mandatory m doc issues
     = issues @ map (\<lambda>p. missing_mandatory_issue (fst p))
         (filter (\<lambda>(f, b). b \<and> \<not> field_found f doc) m)"
proof (induction m arbitrary: issues)
  case Nil
  show ?case by simp
next
  case (Cons p m)
  obtain f b where p: "p = (f, b)" by (cases p)
  show ?case by (simp add: p Cons)
qed

lemma check_fields_eq:
  "check_fields sn fs issues
     = issues @ map (\<lambda>p. missing_tags_issue sn (fst p)) (filter (\<lambda>(fn, fd). untagged fd) fs)"
proof (induction fs arbitrary: issues)
  case Nil
  show ?case by simp
next
  case (Cons p fs)
  obtain fn fd where p: "p = (fn, fd)" by (cases p)
  show ?case by (simp add: p Cons)
qed

lemma check_sections_eq:
  "check_sections doc issues = issues @ concat (map section_issues doc)"
proof (induction doc arbitrary: issues)
  case Nil
  show ?case by simp
next
  case (Cons p doc)
  obtain sn sd where p: "p = (sn, sd)" by (cases p)
  show ?case by (cases sd) (simp_all add: p Cons check_fields_eq)
qed

lemma validate_tagged_data_eq:
  "validate_tagged_data d doc
     = map (\<lambda>p. missing_mandatory_issue (fst p))
         (filter (\<lambda>(f, b). b \<and> \<not> field_found f doc) (mandatory_fields d))
       @ concat (map section_issues doc)"
  by (simp add: validate_tagged_data_def check_sections_eq check_mandatory_eq)

lemma issue_type_simps:
  "issue_type (missing_mandatory_issue f) = Some ''missing_mandatory_field''"
  "issue_type (missing_tags_issue sn fn) = Some ''missing_tags''"
  by (simp_all add: issue_type_def missing_mandatory_issue_def missing_tags_issue_def)

lemma section_issues_type:
  "i \<in> set (section_issues p) \<Longrightarrow> issue_type i = Some ''missing_tags''"
  by (cases p rule: section_issues.cases) (auto simp: issue_type_simps)

lemma filter_mandatory_type:
  "filter (\<lambda>i. issue_type i = Some ''missing_mandatory_field'') (validate_tagged_data d doc)
     = map (\<lambda>p. missing_mandatory_issue (fst p))
         (filter (\<lambda>(f, b). b \<and> \<not> field_found f doc) (mandatory_fields d))"
proof -
  have "filter (\<lambda>i. issue_type i = Some ''missing_mandatory_field'')
          (concat (map section_issues doc)) = []"
    by (auto simp: filter_empty_conv dest: section_issues_type)
  moreover have "filter (\<lambda>i. issue_type i = Some ''missing_mandatory_field'')
          (map (\<lambda>p. missing_mandatory_issue (fst p)) xs)
            = map (\<lambda>p. missing_mandatory_issue (fst p)) xs" for xs :: "(string \<times> bool) list"
    by (induction xs) (simp_all add: issue_type_simps)
  ultimately show ?thesis by (simp add: validate_tagged_data_eq)
qed

lemma filter_tags_type:
  "filter (\<lambda>i. issue_type i = Some ''missing_tags'') (validate_tagged_data d doc)
     = concat (map section_issues doc)"
proof -
  have "filter (\<lambda>i. issue_type i = Some ''missing_tags'')
          (concat (map section_issues doc)) = concat (map section_issues doc)"
    by (auto simp: filter_id_conv dest: section_issues_type)
  moreover have "filter (\<lambda>i. issue_type i = Some ''missing_tags'')
          (map (\<lambda>p. missing_mandatory_issue (fst p)) xs) = []" for xs :: "(string \<times> bool) list"
    by (induction xs) (simp_all add: issue_type_simps)
  ultimately show ?thesis by (simp add: validate_tagged_data_eq)
qed

lemma names_field_simps:
  "names_field ''missing_mandatory_field'' f (missing_mandatory_issue g) = (f = g)"
  "names_field ''missing_mandatory_field'' f (missing_tags_issue sn fn) = False"
  by (auto simp: names_field_def issue_type_def missing_mandatory_issue_def
      missing_tags_issue_def)

lemma names_field_section_issues:
  "i \<in> set (section_issues p) \<Longrightarrow> \<not> names_field ''missing_mandatory_field'' f i"
  by (cases p rule: section_issues.cases) (auto simp: names_field_simps)

text \<open>
  C7. The validator reports a missing mandatory field named \<open>f\<close> exactly when \<open>f\<close> is
  flagged mandatory in the registry and is a key of no section of the document. Hence
  a mandatory field that no section has is reported, and a document in which every
  mandatory field is a key of some section has no such issue at all.
\<close>

theorem validate_tagged_data_mandatory:
  "((\<exists>i \<in> set (validate_tagged_data d doc). names_field ''missing_mandatory_field'' f i)
      \<longleftrightarrow> ((f, True) \<in> set (mandatory_fields d)
           \<and> (\<forall>(sn, sd) \<in> set doc. \<forall>fs. sd = PDict fs \<longrightarrow> f \<notin> fst ` set fs)))
   \<and> ((\<forall>g. (g, True) \<in> set (mandatory_fields d)
            \<longrightarrow> (\<exists>(sn, sd) \<in> set doc. \<exists>fs. sd = PDict fs \<and> g \<in> fst ` set fs))
        \<longrightarrow> filter (\<lambda>i. issue_type i = Some ''missing_mandatory_field'')
              (validate_tagged_data d doc) = [])"
proof (intro conjI impI)
  have "(\<exists>i \<in> set (validate_tagged_data d doc). names_field ''missing_mandatory_field'' f i)
          \<longleftrightarrow> ((f, True) \<in> set (mandatory_fields d) \<and> \<not> field_found f doc)"
  proof
    assume "\<exists>i \<in> set (validate_tagged_data d doc). names_field ''missing_mandatory_field'' f i"
    then obtain i where i: "i \<in> set (validate_tagged_data d doc)"
      and n: "names_field ''missing_mandatory_field'' f i"
      by blast
    from i n obtain g b where "(g, b) \<in> set (mandatory_fields d)" "b \<and> \<not> field_found g doc"
      "i = missing_mandatory_issue g"
      by (auto simp: validate_tagged_data_eq dest: names_field_section_issues)
    with n show "(f, True) \<in> set (mandatory_fields d) \<and> \<not> field_found f doc"
      by (simp add: names_field_simps)
  next
    assume a: "(f, True) \<in> set (mandatory_fields d) \<and> \<not> field_found f doc"
    then have "(f, True) \<in> set (filter (\<lambda>(f, b). b \<and> \<not> field_found f doc) (mandatory_fields d))"
      by simp
    then have "missing_mandatory_issue (fst (f, True)) \<in> set (validate_tagged_data d doc)"
      unfolding validate_tagged_data_eq set_append set_map by blast
    then show "\<exists>i \<in> set (validate_tagged_data d doc).
                 names_field ''missing_mandatory_field'' f i"
      by (auto simp: names_field_simps intro!: bexI[of _ "missing_mandatory_issue f"])
  qed
  also have "\<not> field_found f doc
               \<longleftrightarrow> (\<forall>(sn, sd) \<in> set doc. \<forall>fs. sd = PDict fs \<longrightarrow> f \<notin> fst ` set fs)"
    unfolding field_found_iff by blast
  finally show "(\<exists>i \<in> set (validate_tagged_data d doc).
                    names_field ''missing_mandatory_field'' f i)
      \<longleftrightarrow> ((f, True) \<in> set (mandatory_fields d)
           \<and> (\<forall>(sn, sd) \<in> set doc. \<forall>fs. sd = PDict fs \<longrightarrow> f \<notin> fst ` set fs))" .
next
  assume "\<forall>g. (g, True) \<in> set (mandatory_fields d)
            \<longrightarrow> (\<exists>(sn, sd) \<in> set doc. \<exists>fs. sd = PDict fs \<and> g \<in> fst ` set fs)"
  then have "\<forall>g. (g, True) \<in> set (mandatory_fields d) \<longrightarrow> field_found g doc"
    unfolding field_found_iff .
  then have "filter (\<lambda>(f, b). b \<and> \<not> field_found f doc) (mandatory_fields d) = []"
    by (auto simp: filter_empty_conv)
  then show "filter (\<lambda>i. issue_type i = Some ''missing_mandatory_field'')
              (validate_tagged_data d doc) = []"
    by (simp add: filter_mandatory_type)
qed

theorem validate_tagged_data_mandatory_witness:
  "(\<exists>i \<in> set (validate_tagged_data example_deps example_document).
       names_field ''missing_mandatory_field'' ''TotalAssets'' i)
   \<and> filter (\<lambda>i. issue_type i = Some ''missing_mandatory_field'')
         (validate_tagged_data example_deps complete_document) = []"
proof -
  have m: "(''TotalAssets'', True) \<in> set (mandatory_fields example_deps)"
    by (simp add: example_deps_def)
  have a: "\<forall>(sn, sd) \<in> set example_document. \<forall>fs. sd = PDict fs \<longrightarrow> ''TotalAssets'' \<notin> fst ` set fs"
    by (simp add: example_document_def)
  have c: "\<forall>g. (g, True) \<in> set (mandatory_fields example_deps)
             \<longrightarrow> (\<exists>(sn, sd) \<in> set complete_document. \<exists>fs. sd = PDict fs \<and> g \<in> fst ` set fs)"
    by (auto simp: example_deps_def complete_document_def example_document_def)
  from validate_tagged_data_mandatory
         [of example_deps example_document "''TotalAssets''", THEN conjunct1] m a
  have one: "\<exists>i \<in> set (validate_tagged_data example_deps example_document).
       names_field ''missing_mandatory_field'' ''TotalAssets'' i"
    by blast
  from validate_tagged_data_mandatory
         [of example_deps complete_document "''Revenue''", THEN conjunct2, THEN mp, OF c]
  show ?thesis using one by blast
qed

lemma untagged_eq_has_empty_tags: "tags_is_list fd \<Longrightarrow> untagged fd = has_empty_tags fd"
proof (cases fd)
  case (PDict e)
  assume "tags_is_list fd"
  with PDict show ?thesis
  proof (cases "map_of e ''tags''")
    case None
    with PDict show ?thesis by simp
  next
    case (Some t)
    with PDict \<open>tags_is_list fd\<close> show ?thesis by (cases t) simp_all
  qed
qed simp_all

lemma section_issues_typed:
  assumes "case sd of PDict fs \<Rightarrow> list_all (\<lambda>(fn, fd). tags_is_list fd) fs | _ \<Rightarrow> True"
  shows "section_issues (sn, sd)
           = map (\<lambda>(s, f). missing_tags_issue s f)
               (case sd of
                  PDict fs \<Rightarrow> map (\<lambda>(fn, fd). (sn, fn))
                                (filter (\<lambda>(fn, fd). has_empty_tags fd) fs)
                | _ \<Rightarrow> [])"
proof (cases sd)
  case (PDict fs)
  with assms have "list_all (\<lambda>(fn, fd). tags_is_list fd) fs" by simp
  then have "filter (\<lambda>(fn, fd). untagged fd) fs = filter (\<lambda>(fn, fd). has_empty_tags fd) fs"
    by (intro filter_cong refl) (auto simp: list_all_iff untagged_eq_has_empty_tags)
  with PDict show ?thesis by (simp add: comp_def split_beta)
qed simp_all

lemma tag_issues_typed:
  "tagged_document doc \<Longrightarrow>
   concat (map section_issues doc)
     = map (\<lambda>(s, f). missing_tags_issue s f) (empty_tag_fields doc)"
proof (induction doc)
  case Nil
  show ?case by (simp add: empty_tag_fields_def)
next
  case (Cons p doc)
  obtain sn sd where p: "p = (sn, sd)" by (cases p)
  from Cons.prems have td: "tagged_document doc"
    and ty: "case sd of PDict fs \<Rightarrow> list_all (\<lambda>(fn, fd). tags_is_list fd) fs | _ \<Rightarrow> True"
    by (simp_all add: tagged_document_def p)
  have "empty_tag_fields (p # doc)
          = (case sd of
               PDict fs \<Rightarrow> map (\<lambda>(fn, fd). (sn, fn))
                             (filter (\<lambda>(fn, fd). has_empty_tags fd) fs)
             | _ \<Rightarrow> []) @ empty_tag_fields doc"
    by (simp add: empty_tag_fields_def p)
  then show ?case
    using Cons.IH[OF td] by (simp add: p section_issues_typed[OF ty])
qed

text \<open>
  C8. For a tagged document in which exactly one field has an element with an empty
  tag list, the validator returns exactly one issue of type \<^verbatim>\<open>missing_tags\<close>, and
  that issue names the section and the field.
\<close>

theorem validate_tagged_data_missing_tags:
  assumes "tagged_document doc"
    and "empty_tag_fields doc = [(section_name, field_name)]"
  shows "filter (\<lambda>i. issue_type i = Some ''missing_tags'') (validate_tagged_data d doc)
           = [missing_tags_issue section_name field_name]
         \<and> map_of (missing_tags_issue section_name field_name) ''section'' = Some section_name
         \<and> map_of (missing_tags_issue section_name field_name) ''field'' = Some field_name"
  using assms by (simp add: filter_tags_type tag_issues_typed missing_tags_issue_def)

theorem validate_tagged_data_missing_tags_witness:
  "filter (\<lambda>i. issue_type i = Some ''missing_tags'')
     (validate_tagged_data example_deps example_document)
     = [missing_tags_issue ''incomeStatement'' ''Other'']"
proof -
  have t: "tagged_document example_document" by code_simp
  have e: "empty_tag_fields example_document = [(''incomeStatement'', ''Other'')]" by code_simp
  from validate_tagged_data_missing_tags[OF t e, of example_deps]
  show ?thesis by blast
qed

end
